theory Spec2Isabelle
  imports Main
begin

section \<open>The board game of \<open>main.go\<close>\<close>

text \<open>
  A two-player game on a grid kept in \<open>Board.Rows\<close>. Each turn reads a token such as
  \<open>A7\<close>, checks it with \<open>validateInput\<close>, and \<open>move\<close> marks the cell for the
  player, leaving a \<open>Block\<close> on the cell the player came from. Go's \<open>int\<close> values stay
  between 0 and 9 here, so they are modelled as \<open>int\<close>. Go strings are byte sequences,
  as \<open>string\<close> is. A runtime panic (an index out of range) is the outcome \<open>Panics\<close>.
\<close>

subsection \<open>Cells and the board\<close>

datatype cellStatus = Available | Player1Occupied | Player2Occupied | Block

record Cell =
  Status :: cellStatus

text \<open>\<open>Cell.Render\<close>: every status of the enumeration has a text, so the panic of the
  \<open>default\<close> branch has no input in this model.\<close>

fun Cell_Render :: "Cell \<Rightarrow> string" where
  "Cell_Render c =
     (case Status c of
        Available \<Rightarrow> ''''
      | Player1Occupied \<Rightarrow> ''X''
      | Player2Occupied \<Rightarrow> ''O''
      | Block \<Rightarrow> ''~'')"

definition gridSize :: int where
  "gridSize = 9"

record Board =
  Rows :: "Cell list list"
  playerOneTurn :: bool
  playerOneRow :: int
  playerOneCol :: int
  playerTwoRow :: int
  playerTwoCol :: int

definition newCell :: Cell where
  "newCell = \<lparr>Status = Available\<rparr>"

text \<open>The two loops append \<open>gridSize\<close> times to an empty slice.\<close>

definition newRow :: "Cell list" where
  "newRow = replicate (nat gridSize) newCell"

definition newBoard :: Board where
  "newBoard = \<lparr>Rows = replicate (nat gridSize) newRow, playerOneTurn = True,
     playerOneRow = 0, playerOneCol = 0, playerTwoRow = 0, playerTwoCol = 0\<rparr>"

subsection \<open>Library functions the program calls\<close>

text \<open>Go's conversion \<open>string(r)\<close> of an integer code point: its UTF-8 encoding, and the
  encoding of U+FFFD for a value that is no code point.\<close>

definition string_of_rune :: "int \<Rightarrow> string" where
  "string_of_rune r =
     (if r < 0 \<or> 0x10FFFF < r \<or> (0xD800 \<le> r \<and> r \<le> 0xDFFF)
        then [char_of (0xEF::int), char_of (0xBF::int), char_of (0xBD::int)]
      else if r < 0x80 then [char_of r]
      else if r < 0x800 then [char_of (0xC0 + r div 0x40), char_of (0x80 + r mod 0x40)]
      else if r < 0x10000
        then [char_of (0xE0 + r div 0x1000), char_of (0x80 + (r div 0x40) mod 0x40),
              char_of (0x80 + r mod 0x40)]
      else [char_of (0xF0 + r div 0x40000), char_of (0x80 + (r div 0x1000) mod 0x40),
            char_of (0x80 + (r div 0x40) mod 0x40), char_of (0x80 + r mod 0x40)])"

text \<open>\<open>strconv.Atoi\<close>: an optional sign, then one or more decimal digits, the value within
  64 bits; \<open>None\<close> is the returned error.\<close>

fun atoi_digits :: "string \<Rightarrow> int \<Rightarrow> int option" where
  "atoi_digits [] n = Some n"
| "atoi_digits (ch # s) n =
     (let d = (of_char ch :: int) - 48
      in if 0 \<le> d \<and> d \<le> 9 then atoi_digits s (n * 10 + d) else None)"

definition Atoi :: "string \<Rightarrow> int option" where
  "Atoi s =
     (let neg = (s \<noteq> [] \<and> hd s = CHR ''-'');
          s' = (if s \<noteq> [] \<and> (hd s = CHR ''-'' \<or> hd s = CHR ''+'') then tl s else s)
      in if s' = [] then None
         else case atoi_digits s' 0 of
                None \<Rightarrow> None
              | Some n \<Rightarrow>
                  let v = (if neg then - n else n)
                  in if - (2 ^ 63) \<le> v \<and> v < 2 ^ 63 then Some v else None)"

text \<open>\<open>strconv.Itoa\<close>: the decimal digits, after a minus sign for a negative number.\<close>

fun decimal :: "nat \<Rightarrow> string" where
  "decimal n =
     (if n < 10 then [char_of (48 + n)] else decimal (n div 10) @ [char_of (48 + n mod 10)])"

definition Itoa :: "int \<Rightarrow> string" where
  "Itoa i = (if i < 0 then CHR ''-'' # decimal (nat (- i)) else decimal (nat i))"

text \<open>\<open>strings.TrimSpace\<close> strips the leading and the trailing white space, as
  \<open>unicode.IsSpace\<close> defines it: the code points of \<open>spaceRunes\<close>. The library decodes
  UTF-8 from the front, then from the end; it reads a white-space rune exactly where the
  bytes are the encoding of one, so the model strips these encodings, first from the
  front and then from the end. \<open>Turn\<close> below takes the trimming function as an
  argument, and what is proved of it holds for any.\<close>

definition spaceRunes :: "int list" where
  "spaceRunes =
     [0x09, 0x0A, 0x0B, 0x0C, 0x0D, 0x20, 0x85, 0xA0, 0x1680,
      0x2000, 0x2001, 0x2002, 0x2003, 0x2004, 0x2005, 0x2006, 0x2007, 0x2008, 0x2009, 0x200A,
      0x2028, 0x2029, 0x202F, 0x205F, 0x3000]"

definition stripWord :: "string list \<Rightarrow> string \<Rightarrow> string option" where
  "stripWord ws s =
     map_option (\<lambda>w. drop (length w) s) (find (\<lambda>w. w \<noteq> [] \<and> take (length w) s = w) ws)"

function trimWords :: "string list \<Rightarrow> string \<Rightarrow> string" where
  "trimWords ws s = (case stripWord ws s of None \<Rightarrow> s | Some s' \<Rightarrow> trimWords ws s')"
  by pat_completeness auto
termination
proof (relation "measure (\<lambda>(ws, s). length s)")
  show "wf (measure (\<lambda>(ws, s). length s))" by simp
next
  fix ws :: "string list" and s s' :: string
  assume "stripWord ws s = Some s'"
  then obtain w where w: "w \<noteq> []" "take (length w) s = w" "s' = drop (length w) s"
    by (auto simp add: stripWord_def find_Some_iff)
  have "length (take (length w) s) = length w"
    using w(2) by simp
  then have "length w \<le> length s"
    by simp
  then have "length s' < length s"
    using w(1,3) by (cases w) auto
  then show "((ws, s'), (ws, s)) \<in> measure (\<lambda>(ws, s). length s)" by simp
qed

definition TrimSpace :: "string \<Rightarrow> string" where
  "TrimSpace s =
     (let spaces = map string_of_rune spaceRunes
      in rev (trimWords (map rev spaces) (rev (trimWords spaces s))))"

subsection \<open>The column tables\<close>

text \<open>\<open>init\<close> fills the two global maps in one loop over \<open>0 \<le> i < gridSize\<close>.\<close>

definition init_step :: "int \<Rightarrow> (int \<rightharpoonup> string) \<times> (string \<rightharpoonup> int)
    \<Rightarrow> (int \<rightharpoonup> string) \<times> (string \<rightharpoonup> int)" where
  "init_step i tables =
     (let letter = string_of_rune (65 + i)
      in ((fst tables)(i \<mapsto> letter), (snd tables)(letter \<mapsto> i + 1)))"

definition init :: "(int \<rightharpoonup> string) \<times> (string \<rightharpoonup> int)" where
  "init = fold init_step (map int [0..<nat gridSize]) (Map.empty, Map.empty)"

definition columnMap :: "int \<rightharpoonup> string" where
  "columnMap = fst init"

definition columnMapInverted :: "string \<rightharpoonup> int" where
  "columnMapInverted = snd init"

subsection \<open>Validation of the input\<close>

text \<open>The four \<open>fmt.Errorf\<close> messages, in the order of the source: not a valid position,
  not a number, no such row, no such column.\<close>

datatype error =
    NotAValidPosition
  | NotSerious
  | RowDoesNotExist int
  | ColumnDoesNotExist string

text \<open>The receiver is not read: the board plays no part in the validation.\<close>

definition validateInput :: "string \<Rightarrow> error + (int \<times> int)" where
  "validateInput text =
     (if length text \<noteq> 2 then Inl NotAValidPosition
      else
        let letter = text ! 0 in
        (case Atoi (string_of_rune (of_char (text ! 1))) of
           None \<Rightarrow> Inl NotSerious
         | Some row \<Rightarrow>
             if row > gridSize \<or> row < 1 then Inl (RowDoesNotExist row)
             else
               (case columnMapInverted (string_of_rune (of_char letter)) of
                  None \<Rightarrow> Inl (ColumnDoesNotExist (string_of_rune (of_char letter)))
                | Some column \<Rightarrow> Inr (row, column))))"

subsection \<open>Applying a move\<close>

datatype 'a outcome = Returns 'a | Panics

text \<open>The assignment \<open>rows[r][c] = v\<close>: Go checks both indices and panics outside the
  slice.\<close>

definition setCell :: "Cell list list \<Rightarrow> int \<Rightarrow> int \<Rightarrow> Cell \<Rightarrow> Cell list list outcome" where
  "setCell rows r c v =
     (if 0 \<le> r \<and> r < int (length rows) then
        (let row = rows ! nat r
         in if 0 \<le> c \<and> c < int (length row)
            then Returns (rows[nat r := row[nat c := v]])
            else Panics)
      else Panics)"

definition move :: "int \<Rightarrow> int \<Rightarrow> Board \<Rightarrow> Board outcome" where
  "move moveToRow moveToColumn b =
     (if playerOneTurn b then
        (case (if playerOneRow b > 0
               then setCell (Rows b) (playerOneRow b) (playerOneCol b) \<lparr>Status = Block\<rparr>
               else Returns (Rows b)) of
           Panics \<Rightarrow> Panics
         | Returns rows1 \<Rightarrow>
             (case setCell rows1 moveToRow moveToColumn \<lparr>Status = Player1Occupied\<rparr> of
                Panics \<Rightarrow> Panics
              | Returns rows2 \<Rightarrow>
                  Returns (b\<lparr>Rows := rows2, playerOneRow := moveToRow,
                             playerOneCol := moveToColumn\<rparr>)))
      else
        (case (if playerTwoRow b > 0
               then setCell (Rows b) (playerTwoRow b) (playerTwoCol b) \<lparr>Status = Block\<rparr>
               else Returns (Rows b)) of
           Panics \<Rightarrow> Panics
         | Returns rows1 \<Rightarrow>
             (case setCell rows1 moveToRow moveToColumn \<lparr>Status = Player2Occupied\<rparr> of
                Panics \<Rightarrow> Panics
              | Returns rows2 \<Rightarrow>
                  Returns (b\<lparr>Rows := rows2, playerTwoRow := moveToRow,
                             playerTwoCol := moveToColumn\<rparr>))))"

text \<open>\<open>Turn\<close>: \<open>input\<close> is the line \<open>captureInput\<close> read, \<open>trim\<close> is
  \<open>strings.TrimSpace\<close>. It returns the error (\<open>None\<close> for \<open>nil\<close>) and the board as
  the call leaves it.\<close>

definition Turn :: "(string \<Rightarrow> string) \<Rightarrow> string \<Rightarrow> Board \<Rightarrow> (error option \<times> Board) outcome" where
  "Turn trim input b =
     (case validateInput (trim input) of
        Inl err \<Rightarrow> Returns (Some err, b)
      | Inr (row, column) \<Rightarrow>
          (case move row column b of
             Panics \<Rightarrow> Panics
           | Returns b' \<Rightarrow> Returns (None, b'\<lparr>playerOneTurn := \<not> playerOneTurn b'\<rparr>)))"

text \<open>The loop of \<open>main\<close> over the lines typed so far. Each round renders the board,
  which only prints, and takes a turn: a turn that returns an error prints it and the
  loop goes on with the board as it is; a panic ends the process. The result is what
  each turn returned, in order, and the board.\<close>

fun main_loop :: "(string \<Rightarrow> string) \<Rightarrow> string list \<Rightarrow> Board
    \<Rightarrow> (error option list \<times> Board) outcome" where
  "main_loop trim [] b = Returns ([], b)"
| "main_loop trim (input # inputs) b =
     (case Turn trim input b of
        Panics \<Rightarrow> Panics
      | Returns (err, b') \<Rightarrow>
          (case main_loop trim inputs b' of
             Panics \<Rightarrow> Panics
           | Returns (errs, b'') \<Rightarrow> Returns (err # errs, b'')))"

subsection \<open>Rendering\<close>

text \<open>\<open>Board.Render\<close>: the rows handed to the table writer. Reading a key that a Go map
  does not hold gives the empty string.\<close>

definition Render :: "Board \<Rightarrow> string list list" where
  "Render b =
     map (\<lambda>(i, row).
        map (\<lambda>(j, cell).
           if i = 0 \<and> j = 0 then ''''
           else if i = 0 then (case columnMap (int j - 1) of None \<Rightarrow> '''' | Some s \<Rightarrow> s)
           else if j = 0 then Itoa (int i)
           else Cell_Render cell) (enumerate 0 row)) (enumerate 0 (Rows b))"

subsection \<open>Reading a board\<close>

text \<open>The positions (row, column) of the cells that hold a status, in reading order.\<close>

definition cells :: "cellStatus \<Rightarrow> Cell list list \<Rightarrow> (nat \<times> nat) list" where
  "cells st rows =
     concat (map (\<lambda>i. map (Pair i) (filter (\<lambda>j. Status (rows ! i ! j) = st) [0..<length (rows ! i)]))
       [0..<length rows])"

text \<open>The cells a player can still claim: \<open>Available\<close> ones outside row 0 and column 0,
  which \<open>Render\<close> fills with the labels.\<close>

definition emptyCells :: "Cell list list \<Rightarrow> (nat \<times> nat) list" where
  "emptyCells rows = filter (\<lambda>(i, j). 0 < i \<and> 0 < j) (cells Available rows)"

text \<open>The cells that are \<open>Block\<close> on the second board and were not on the first.\<close>

definition newlyBlocked :: "Board \<Rightarrow> Board \<Rightarrow> (nat \<times> nat) list" where
  "newlyBlocked b b' = filter (\<lambda>p. p \<notin> set (cells Block (Rows b))) (cells Block (Rows b'))"

text \<open>The player whose turn it is: the status \<open>move\<close> writes for them, and the position
  it reads as theirs (row 0 stands for no position yet).\<close>

definition mover :: "Board \<Rightarrow> cellStatus" where
  "mover b = (if playerOneTurn b then Player1Occupied else Player2Occupied)"

definition priorRow :: "Board \<Rightarrow> int" where
  "priorRow b = (if playerOneTurn b then playerOneRow b else playerTwoRow b)"

definition priorCol :: "Board \<Rightarrow> int" where
  "priorCol b = (if playerOneTurn b then playerOneCol b else playerTwoCol b)"

subsection \<open>Invariants of the boards of a game\<close>

text \<open>A player's recorded position indexes a cell of the grid, its column is set when
  its row is, and no cell but the recorded one carries the player's mark.\<close>

definition playerInv :: "cellStatus \<Rightarrow> int \<Rightarrow> int \<Rightarrow> Cell list list \<Rightarrow> bool" where
  "playerInv st pr pc rows =
     (0 \<le> pr \<and> pr < gridSize \<and> 0 \<le> pc \<and> pc < gridSize \<and> (0 < pr \<longrightarrow> 0 < pc) \<and>
      (\<forall>p \<in> set (cells st rows). 0 < pr \<and> p = (nat pr, nat pc)))"

definition headerFree :: "Cell list list \<Rightarrow> bool" where
  "headerFree rows =
     (\<forall>k \<in> {0..<nat gridSize}.
        Status (rows ! 0 ! k) = Available \<and> Status (rows ! k ! 0) = Available)"

definition boardInv :: "Board \<Rightarrow> bool" where
  "boardInv b =
     (length (Rows b) = nat gridSize \<and> (\<forall>row \<in> set (Rows b). length row = nat gridSize) \<and>
      headerFree (Rows b) \<and>
      playerInv Player1Occupied (playerOneRow b) (playerOneCol b) (Rows b) \<and>
      playerInv Player2Occupied (playerTwoRow b) (playerTwoCol b) (Rows b))"

subsection \<open>Boards of short games\<close>

text \<open>The boards below are named after the tokens played from the fresh board, player
  one first.\<close>

definition board_A1 :: Board where
  "board_A1 =
     newBoard\<lparr>Rows := (Rows newBoard)[1 := newRow[1 := \<lparr>Status = Player1Occupied\<rparr>]],
       playerOneTurn := False, playerOneRow := 1, playerOneCol := 1\<rparr>"

definition board_A1_B1 :: Board where
  "board_A1_B1 =
     newBoard\<lparr>Rows := (Rows newBoard)
         [1 := newRow[1 := \<lparr>Status = Player1Occupied\<rparr>, 2 := \<lparr>Status = Player2Occupied\<rparr>]],
       playerOneTurn := True, playerOneRow := 1, playerOneCol := 1,
       playerTwoRow := 1, playerTwoCol := 2\<rparr>"

definition board_A1_B1_A2 :: Board where
  "board_A1_B1_A2 =
     newBoard\<lparr>Rows := (Rows newBoard)
         [1 := newRow[1 := \<lparr>Status = Block\<rparr>, 2 := \<lparr>Status = Player2Occupied\<rparr>],
          2 := newRow[1 := \<lparr>Status = Player1Occupied\<rparr>]],
       playerOneTurn := False, playerOneRow := 2, playerOneCol := 1,
       playerTwoRow := 1, playerTwoCol := 2\<rparr>"

definition board_A1_B1_A2_A1 :: Board where
  "board_A1_B1_A2_A1 =
     newBoard\<lparr>Rows := (Rows newBoard)
         [1 := newRow[1 := \<lparr>Status = Player2Occupied\<rparr>, 2 := \<lparr>Status = Block\<rparr>],
          2 := newRow[1 := \<lparr>Status = Player1Occupied\<rparr>]],
       playerOneTurn := True, playerOneRow := 2, playerOneCol := 1,
       playerTwoRow := 1, playerTwoCol := 1\<rparr>"

definition board_A1_B1_A2_C1 :: Board where
  "board_A1_B1_A2_C1 =
     newBoard\<lparr>Rows := (Rows newBoard)
         [1 := newRow[1 := \<lparr>Status = Block\<rparr>, 2 := \<lparr>Status = Block\<rparr>,
                      3 := \<lparr>Status = Player2Occupied\<rparr>],
          2 := newRow[1 := \<lparr>Status = Player1Occupied\<rparr>]],
       playerOneTurn := True, playerOneRow := 2, playerOneCol := 1,
       playerTwoRow := 1, playerTwoCol := 3\<rparr>"

definition board_A1_A1_A2 :: Board where
  "board_A1_A1_A2 =
     newBoard\<lparr>Rows := (Rows newBoard)
         [1 := newRow[1 := \<lparr>Status = Block\<rparr>],
          2 := newRow[1 := \<lparr>Status = Player1Occupied\<rparr>]],
       playerOneTurn := False, playerOneRow := 2, playerOneCol := 1,
       playerTwoRow := 1, playerTwoCol := 1\<rparr>"

definition board_A1_A1_A2_B1 :: Board where
  "board_A1_A1_A2_B1 =
     newBoard\<lparr>Rows := (Rows newBoard)
         [1 := newRow[1 := \<lparr>Status = Block\<rparr>, 2 := \<lparr>Status = Player2Occupied\<rparr>],
          2 := newRow[1 := \<lparr>Status = Player1Occupied\<rparr>]],
       playerOneTurn := True, playerOneRow := 2, playerOneCol := 1,
       playerTwoRow := 1, playerTwoCol := 2\<rparr>"

text \<open>The 64 tokens from A1 to H8, row by row, and the board after a game that plays
  them in this order: every cell outside row 0 and column 0 is taken. \<open>fullBoard_A1\<close>
  is that board after player one has played A1 once more.\<close>

definition allTokens :: "string list" where
  "allTokens = concat (map (\<lambda>d. map (\<lambda>l. [l, d]) ''ABCDEFGH'') ''12345678'')"

definition fullBoard :: Board where
  "fullBoard =
     \<lparr>Rows = newRow # replicate 7 (newCell # replicate 8 \<lparr>Status = Block\<rparr>) @
         [newCell # replicate 6 \<lparr>Status = Block\<rparr> @
            [\<lparr>Status = Player1Occupied\<rparr>, \<lparr>Status = Player2Occupied\<rparr>]],
      playerOneTurn = True, playerOneRow = 8, playerOneCol = 7,
      playerTwoRow = 8, playerTwoCol = 8\<rparr>"

definition fullBoard_A1 :: Board where
  "fullBoard_A1 =
     fullBoard\<lparr>Rows := (Rows fullBoard)
         [8 := (Rows fullBoard ! 8)[7 := \<lparr>Status = Block\<rparr>],
          1 := (Rows fullBoard ! 1)[1 := \<lparr>Status = Player1Occupied\<rparr>]],
       playerOneTurn := False, playerOneRow := 1, playerOneCol := 1\<rparr>"

section \<open>The library models on single bytes\<close>

text \<open>\<open>validateInput\<close> hands one byte of the token to \<open>strconv.Atoi\<close> and one to the
  column table, each through \<open>string(byte)\<close>.\<close>

lemma of_char_range: "0 \<le> (of_char c :: int) \<and> (of_char c :: int) < 256"
proof -
  have "(of_char c :: int) = int (of_char c :: nat)" by (simp add: of_char_def)
  then show ?thesis using nat_of_char_less_256[of c] by simp
qed

lemma char_eq_iff_int: "(c = d) = ((of_char c :: int) = of_char d)"
  by simp

lemma string_of_byte_low:
  "(of_char c :: int) < 128 \<Longrightarrow> string_of_rune (of_char c) = [c]"
  using of_char_range[of c] by (simp add: string_of_rune_def)

lemma string_of_byte_high:
  "128 \<le> (of_char c :: int) \<Longrightarrow>
     string_of_rune (of_char c) =
       [char_of (192 + (of_char c :: int) div 64), char_of (128 + (of_char c :: int) mod 64)]"
  using of_char_range[of c] by (simp add: string_of_rune_def)

lemma Atoi_single:
  "Atoi [c] =
     (if 48 \<le> (of_char c :: int) \<and> (of_char c :: int) \<le> 57 then Some (of_char c - 48) else None)"
proof -
  have m: "(c = CHR ''-'') = ((of_char c :: int) = 45)" "(c = CHR ''+'') = ((of_char c :: int) = 43)"
    by (simp_all add: char_eq_iff_int[of c])
  show ?thesis
    by (auto simp add: Atoi_def Let_def m)
qed

lemma Atoi_high:
  assumes "128 \<le> (of_char c :: int)"
  shows "Atoi (string_of_rune (of_char c)) = None"
proof -
  define h where "h = 192 + (of_char c :: int) div 64"
  have h: "194 \<le> h" "h \<le> 195" using assms of_char_range[of c] by (auto simp: h_def)
  then have oh: "(of_char (char_of h) :: int) = h" by (simp add: of_char_of)
  have m: "char_of h \<noteq> CHR ''-''" "char_of h \<noteq> CHR ''+''"
    using h oh by (auto simp add: char_eq_iff_int[of "char_of h"])
  show ?thesis
    using h oh m by (simp add: string_of_byte_high[OF assms] Atoi_def Let_def h_def[symmetric])
qed

lemma Atoi_byte:
  "Atoi (string_of_rune (of_char c)) =
     (if 48 \<le> (of_char c :: int) \<and> (of_char c :: int) \<le> 57 then Some (of_char c - 48) else None)"
proof (cases "(of_char c :: int) < 128")
  case True
  then show ?thesis by (simp add: string_of_byte_low Atoi_single)
next
  case False
  then show ?thesis using Atoi_high[of c] by simp
qed

section \<open>The column tables and the accepted tokens\<close>

lemma init_eq:
  "init = ([0 \<mapsto> ''A'', 1 \<mapsto> ''B'', 2 \<mapsto> ''C'', 3 \<mapsto> ''D'', 4 \<mapsto> ''E'', 5 \<mapsto> ''F'',
            6 \<mapsto> ''G'', 7 \<mapsto> ''H'', 8 \<mapsto> ''I''],
           [''A'' \<mapsto> 1, ''B'' \<mapsto> 2, ''C'' \<mapsto> 3, ''D'' \<mapsto> 4, ''E'' \<mapsto> 5, ''F'' \<mapsto> 6,
            ''G'' \<mapsto> 7, ''H'' \<mapsto> 8, ''I'' \<mapsto> 9])"
  by (simp add: init_def gridSize_def upt_rec init_step_def string_of_rune_def char_of_def Let_def)

lemma columnMapInverted_single:
  "columnMapInverted [c] =
     (if 65 \<le> (of_char c :: int) \<and> (of_char c :: int) \<le> 73 then Some (of_char c - 64) else None)"
proof -
  have m: "\<And>d. (c = d) = ((of_char c :: int) = of_char d)" by simp
  show ?thesis
    unfolding columnMapInverted_def init_eq snd_conv
    by (simp add: m)
qed

lemma columnMapInverted_two: "columnMapInverted [c, d] = None"
  unfolding columnMapInverted_def init_eq snd_conv by simp

lemma columnMapInverted_byte:
  "columnMapInverted (string_of_rune (of_char c)) =
     (if 65 \<le> (of_char c :: int) \<and> (of_char c :: int) \<le> 73 then Some (of_char c - 64) else None)"
proof (cases "(of_char c :: int) < 128")
  case True
  then show ?thesis by (simp add: string_of_byte_low columnMapInverted_single)
next
  case False
  then show ?thesis by (simp add: string_of_byte_high columnMapInverted_two)
qed

lemma validateInput_two:
  "validateInput [l, d] =
     (if (of_char d :: int) < 48 \<or> 57 < (of_char d :: int) then Inl NotSerious
      else if (of_char d :: int) = 48 then Inl (RowDoesNotExist 0)
      else if (of_char l :: int) < 65 \<or> 73 < (of_char l :: int)
        then Inl (ColumnDoesNotExist (string_of_rune (of_char l)))
      else Inr (of_char d - 48, of_char l - 64))"
  by (auto simp add: validateInput_def Atoi_byte columnMapInverted_byte gridSize_def)

lemma validateInput_Inr:
  "validateInput text = Inr (r, c) \<Longrightarrow>
     \<exists>l d. text = [l, d] \<and> r = of_char d - 48 \<and> c = of_char l - 64 \<and>
       1 \<le> r \<and> r \<le> 9 \<and> 1 \<le> c \<and> c \<le> 9"
proof -
  assume a: "validateInput text = Inr (r, c)"
  then have "length text = 2" by (auto simp add: validateInput_def split: if_splits)
  then obtain l d where t: "text = [l, d]"
    by (metis (no_types) One_nat_def Suc_1 length_0_conv length_Suc_conv)
  from a show ?thesis unfolding t validateInput_two by (auto split: if_splits)
qed

section \<open>The cells of a board\<close>

lemma set_cells:
  "set (cells st rows) =
     {(i, j). i < length rows \<and> j < length (rows ! i) \<and> Status (rows ! i ! j) = st}"
  by (auto simp add: cells_def)

lemma distinct_concat_map_upt:
  "(\<And>i. i < n \<Longrightarrow> distinct (f i)) \<Longrightarrow>
   (\<And>i j. i < j \<Longrightarrow> j < n \<Longrightarrow> set (f i) \<inter> set (f j) = {}) \<Longrightarrow>
   distinct (concat (map f [0..<n]))"
proof (induction n)
  case 0
  then show ?case by simp
next
  case (Suc n)
  have "distinct (concat (map f [0..<n]))"
    using Suc.prems by (intro Suc.IH) auto
  moreover have "distinct (f n)" using Suc.prems(1) by simp
  moreover have "set (concat (map f [0..<n])) \<inter> set (f n) = {}"
    using Suc.prems(2)[of _ n] by fastforce
  ultimately show ?case by simp
qed

lemma distinct_cells: "distinct (cells st rows)"
  unfolding cells_def
  by (rule distinct_concat_map_upt) (auto simp add: distinct_map inj_on_def)

lemma cells_singleton:
  "set (cells st rows) = {p} \<Longrightarrow> cells st rows = [p]"
proof -
  assume a: "set (cells st rows) = {p}"
  have "length (cells st rows) = card (set (cells st rows))"
    using distinct_cells by (simp add: distinct_card)
  then have "length (cells st rows) = 1" using a by simp
  then obtain q where "cells st rows = [q]" by (cases "cells st rows") auto
  with a show ?thesis by auto
qed

lemma setCell_Returns:
  "setCell rows r c v = Returns rows' \<Longrightarrow>
     0 \<le> r \<and> nat r < length rows \<and> 0 \<le> c \<and> nat c < length (rows ! nat r) \<and>
     rows' = rows[nat r := (rows ! nat r)[nat c := v]]"
  by (auto simp add: setCell_def Let_def split: if_splits)

lemma setCell_length:
  "setCell rows r c v = Returns rows' \<Longrightarrow> length rows' = length rows"
  by (auto dest: setCell_Returns)

lemma setCell_row_length:
  "setCell rows r c v = Returns rows' \<Longrightarrow> length (rows' ! i) = length (rows ! i)"
  by (cases "i = nat r") (auto dest!: setCell_Returns)

lemma setCell_nth:
  "setCell rows r c v = Returns rows' \<Longrightarrow>
     rows' ! i ! j = (if i = nat r \<and> j = nat c then v else rows ! i ! j)"
  by (cases "i = nat r"; cases "j = nat c") (auto dest!: setCell_Returns)

lemma setCell_cells:
  assumes "setCell rows r c v = Returns rows'"
  shows "set (cells st rows') =
     (if Status v = st then insert (nat r, nat c) (set (cells st rows))
      else set (cells st rows) - {(nat r, nat c)})"
proof -
  have d: "nat r < length rows" "nat c < length (rows ! nat r)"
    using setCell_Returns[OF assms] by auto
  show ?thesis
    unfolding set_cells setCell_length[OF assms] setCell_row_length[OF assms] setCell_nth[OF assms]
    using d by auto
qed

section \<open>What a move does\<close>

text \<open>Both branches of \<open>move\<close> at once, through \<open>mover\<close>, \<open>priorRow\<close> and
  \<open>priorCol\<close>.\<close>

lemma move_Returns:
  assumes "move r c b = Returns b'"
  shows "\<exists>rows1.
     (if 0 < priorRow b
      then setCell (Rows b) (priorRow b) (priorCol b) \<lparr>Status = Block\<rparr>
      else Returns (Rows b)) = Returns rows1 \<and>
     setCell rows1 r c \<lparr>Status = mover b\<rparr> = Returns (Rows b') \<and>
     playerOneTurn b' = playerOneTurn b \<and>
     (if playerOneTurn b
      then playerOneRow b' = r \<and> playerOneCol b' = c \<and>
           playerTwoRow b' = playerTwoRow b \<and> playerTwoCol b' = playerTwoCol b
      else playerTwoRow b' = r \<and> playerTwoCol b' = c \<and>
           playerOneRow b' = playerOneRow b \<and> playerOneCol b' = playerOneCol b)"
proof (cases "playerOneTurn b")
  case True
  with assms show ?thesis
    by (auto simp add: move_def mover_def priorRow_def priorCol_def split: outcome.splits)
next
  case False
  with assms show ?thesis
    by (auto simp add: move_def mover_def priorRow_def priorCol_def split: outcome.splits)
qed

lemma prior_Returns:
  assumes "(if 0 < pr then setCell rows pr pc \<lparr>Status = Block\<rparr> else Returns rows) = Returns rows1"
  shows "length rows1 = length rows"
    and "length (rows1 ! i) = length (rows ! i)"
    and "rows1 ! i ! j = (if 0 < pr \<and> i = nat pr \<and> j = nat pc then \<lparr>Status = Block\<rparr> else rows ! i ! j)"
    and "set (cells st rows1) =
      (if 0 < pr then (if st = Block then insert (nat pr, nat pc) (set (cells st rows))
                       else set (cells st rows) - {(nat pr, nat pc)})
       else set (cells st rows))"
  using assms
  by (auto simp add: setCell_length setCell_row_length setCell_nth setCell_cells split: if_splits)

lemma move_cells:
  assumes "move r c b = Returns b'"
  shows "set (cells st (Rows b')) =
     (let S = set (cells st (Rows b));
          S1 = (if 0 < priorRow b
                then (if st = Block then insert (nat (priorRow b), nat (priorCol b)) S
                      else S - {(nat (priorRow b), nat (priorCol b))})
                else S)
      in if st = mover b then insert (nat r, nat c) S1 else S1 - {(nat r, nat c)})"
proof -
  obtain rows1 where
    p: "(if 0 < priorRow b
         then setCell (Rows b) (priorRow b) (priorCol b) \<lparr>Status = Block\<rparr>
         else Returns (Rows b)) = Returns rows1"
    and d: "setCell rows1 r c \<lparr>Status = mover b\<rparr> = Returns (Rows b')"
    using move_Returns[OF assms] by blast
  show ?thesis
    unfolding setCell_cells[OF d] prior_Returns(4)[OF p] Let_def by auto
qed

lemma move_nth:
  assumes "move r c b = Returns b'"
  shows "Rows b' ! i ! j =
     (if i = nat r \<and> j = nat c then \<lparr>Status = mover b\<rparr>
      else if 0 < priorRow b \<and> i = nat (priorRow b) \<and> j = nat (priorCol b) then \<lparr>Status = Block\<rparr>
      else Rows b ! i ! j)"
proof -
  obtain rows1 where
    p: "(if 0 < priorRow b
         then setCell (Rows b) (priorRow b) (priorCol b) \<lparr>Status = Block\<rparr>
         else Returns (Rows b)) = Returns rows1"
    and d: "setCell rows1 r c \<lparr>Status = mover b\<rparr> = Returns (Rows b')"
    using move_Returns[OF assms] by blast
  show ?thesis
    unfolding setCell_nth[OF d] prior_Returns(3)[OF p] by simp
qed

lemma move_dims:
  assumes "move r c b = Returns b'"
  shows "length (Rows b') = length (Rows b)" and "length (Rows b' ! i) = length (Rows b ! i)"
    and "0 \<le> r" and "nat r < length (Rows b)" and "0 \<le> c" and "nat c < length (Rows b ! nat r)"
proof -
  obtain rows1 where
    p: "(if 0 < priorRow b
         then setCell (Rows b) (priorRow b) (priorCol b) \<lparr>Status = Block\<rparr>
         else Returns (Rows b)) = Returns rows1"
    and d: "setCell rows1 r c \<lparr>Status = mover b\<rparr> = Returns (Rows b')"
    using move_Returns[OF assms] by blast
  show "length (Rows b') = length (Rows b)"
    using setCell_length[OF d] prior_Returns(1)[OF p] by simp
  show "length (Rows b' ! i) = length (Rows b ! i)"
    using setCell_row_length[OF d] prior_Returns(2)[OF p] by simp
  show "0 \<le> r" "nat r < length (Rows b)" "0 \<le> c" "nat c < length (Rows b ! nat r)"
    using setCell_Returns[OF d] prior_Returns(1,2)[OF p] by auto
qed

lemma move_positions:
  assumes "move r c b = Returns b'"
  shows "playerOneTurn b' = playerOneTurn b"
    and "playerOneTurn b \<Longrightarrow> playerOneRow b' = r \<and> playerOneCol b' = c \<and>
           playerTwoRow b' = playerTwoRow b \<and> playerTwoCol b' = playerTwoCol b"
    and "\<not> playerOneTurn b \<Longrightarrow> playerTwoRow b' = r \<and> playerTwoCol b' = c \<and>
           playerOneRow b' = playerOneRow b \<and> playerOneCol b' = playerOneCol b"
  using move_Returns[OF assms] by auto

lemma move_boardInv:
  assumes inv: "boardInv b" and m: "move r c b = Returns b'" and r: "0 < r" and c: "0 < c"
  shows "boardInv b'"
proof -
  have len: "length (Rows b') = nat gridSize"
    using move_dims(1)[OF m] inv by (simp add: boardInv_def)
  have rowlen: "\<forall>row \<in> set (Rows b'). length row = nat gridSize"
  proof
    fix row assume "row \<in> set (Rows b')"
    then obtain i where i: "i < length (Rows b')" "row = Rows b' ! i"
      by (auto simp add: in_set_conv_nth)
    then have "Rows b ! i \<in> set (Rows b)" using move_dims(1)[OF m] by simp
    then show "length row = nat gridSize"
      using inv i move_dims(2)[OF m, of i] by (simp add: boardInv_def)
  qed
  have prior: "0 < priorRow b \<longrightarrow> 0 < priorCol b"
    using inv by (auto simp add: boardInv_def playerInv_def priorRow_def priorCol_def)
  have hdr: "headerFree (Rows b')"
    using inv r c prior unfolding boardInv_def headerFree_def move_nth[OF m]
    by auto
  have "Rows b ! nat r \<in> set (Rows b)"
    using move_dims(4)[OF m] by simp
  then have "length (Rows b ! nat r) = nat gridSize"
    using inv by (simp add: boardInv_def)
  then have rc: "r < gridSize" "c < gridSize"
    using move_dims(4,6)[OF m] inv by (auto simp add: boardInv_def)
  have p1: "playerInv Player1Occupied (playerOneRow b') (playerOneCol b') (Rows b')"
    using inv r c rc move_positions[OF m]
    unfolding boardInv_def playerInv_def move_cells[OF m] Let_def
    by (cases "playerOneTurn b") (auto simp add: mover_def priorRow_def priorCol_def)
  have p2: "playerInv Player2Occupied (playerTwoRow b') (playerTwoCol b') (Rows b')"
    using inv r c rc move_positions[OF m]
    unfolding boardInv_def playerInv_def move_cells[OF m] Let_def
    by (cases "playerOneTurn b") (auto simp add: mover_def priorRow_def priorCol_def)
  show ?thesis
    unfolding boardInv_def using len rowlen hdr p1 p2 by simp
qed

section \<open>Turns and the loop\<close>

lemma Turn_cases:
  assumes "Turn trim input b = Returns (err, b')"
  shows "(\<exists>e. validateInput (trim input) = Inl e \<and> err = Some e \<and> b' = b) \<or>
         (\<exists>r c b0. validateInput (trim input) = Inr (r, c) \<and> move r c b = Returns b0 \<and>
            err = None \<and> b' = b0\<lparr>playerOneTurn := \<not> playerOneTurn b0\<rparr>)"
  using assms by (auto simp add: Turn_def split: sum.splits outcome.splits)

lemma Turn_boardInv:
  assumes "boardInv b" and "Turn trim input b = Returns (err, b')"
  shows "boardInv b'"
  using Turn_cases[OF assms(2)]
proof (elim disjE exE conjE)
  fix e assume "b' = b"
  with assms(1) show ?thesis by simp
next
  fix r c b0
  assume v: "validateInput (trim input) = Inr (r, c)" and m: "move r c b = Returns b0"
    and b': "b' = b0\<lparr>playerOneTurn := \<not> playerOneTurn b0\<rparr>"
  have "0 < r" "0 < c" using validateInput_Inr[OF v] by auto
  then have "boardInv b0" using move_boardInv[OF assms(1) m] by simp
  then show ?thesis by (simp add: b' boardInv_def)
qed

lemma main_loop_boardInv:
  "boardInv b \<Longrightarrow> main_loop trim inputs b = Returns (errs, b') \<Longrightarrow> boardInv b'"
proof (induction inputs arbitrary: b errs)
  case Nil
  then show ?case by simp
next
  case (Cons input inputs)
  from Cons.prems(2) obtain err b1 errs1 where
    t: "Turn trim input b = Returns (err, b1)" and
    l: "main_loop trim inputs b1 = Returns (errs1, b')"
    by (auto split: outcome.splits)
  show ?case using Cons.IH[OF Turn_boardInv[OF Cons.prems(1) t] l] .
qed

lemma cells_newBoard:
  "set (cells st (Rows newBoard)) = (if st = Available then {..<9} \<times> {..<9} else {})"
  by (auto simp add: set_cells newBoard_def newRow_def newCell_def gridSize_def)

lemma boardInv_newBoard: "boardInv newBoard"
  unfolding boardInv_def playerInv_def headerFree_def cells_newBoard
  by (simp add: newBoard_def newRow_def newCell_def gridSize_def)

lemma Turn_turn:
  assumes "Turn trim input b = Returns (err, b')"
  shows "playerOneTurn b' = (if err = None then \<not> playerOneTurn b else playerOneTurn b)"
  using Turn_cases[OF assms] by (auto dest: move_positions(1))

lemma main_loop_turns:
  "main_loop trim inputs b = Returns (errs, b') \<Longrightarrow>
     playerOneTurn b' = (playerOneTurn b = even (count_list errs None))"
proof (induction inputs arbitrary: b errs)
  case Nil
  then show ?case by simp
next
  case (Cons input inputs)
  from Cons.prems obtain err b1 errs1 where
    t: "Turn trim input b = Returns (err, b1)" and
    l: "main_loop trim inputs b1 = Returns (errs1, b')" and
    e: "errs = err # errs1"
    by (auto split: outcome.splits)
  show ?case
    using Cons.IH[OF l] Turn_turn[OF t] by (auto simp add: e)
qed

lemma Turn_keeps_Block:
  assumes t: "Turn trim input b = Returns (err, b')"
    and blk: "Status (Rows b ! i ! j) = Block"
    and other: "validateInput (trim input) \<noteq> Inr (int i, int j)"
  shows "Status (Rows b' ! i ! j) = Block"
  using Turn_cases[OF t]
proof (elim disjE exE conjE)
  fix e assume "b' = b"
  with blk show ?thesis by simp
next
  fix r c b0
  assume v: "validateInput (trim input) = Inr (r, c)" and m: "move r c b = Returns b0"
    and b': "b' = b0\<lparr>playerOneTurn := \<not> playerOneTurn b0\<rparr>"
  have "\<not> (i = nat r \<and> j = nat c)"
    using other v move_dims(3,5)[OF m] by auto
  then show ?thesis
    using blk by (auto simp add: b' move_nth[OF m])
qed

lemma newlyBlocked_singleton:
  assumes "set (cells Block (Rows b')) - set (cells Block (Rows b)) = {p}"
  shows "newlyBlocked b b' = [p]"
proof -
  have d: "distinct (newlyBlocked b b')"
    by (simp add: newlyBlocked_def distinct_cells)
  have s: "set (newlyBlocked b b') = {p}"
    using assms by (auto simp add: newlyBlocked_def)
  have "length (newlyBlocked b b') = card (set (newlyBlocked b b'))"
    using d by (simp add: distinct_card)
  then have "length (newlyBlocked b b') = 1" using s by simp
  then obtain q where "newlyBlocked b b' = [q]" by (cases "newlyBlocked b b'") auto
  with s show ?thesis by auto
qed

lemma mover_prior_inv:
  assumes "boardInv b"
  shows "playerInv (mover b) (priorRow b) (priorCol b) (Rows b)"
  using assms by (simp add: boardInv_def mover_def priorRow_def priorCol_def)

lemma mover_not_Block: "mover b \<noteq> Block"
  by (simp add: mover_def)

lemma validateInput_allTokens:
  assumes "t \<in> set allTokens"
  shows "\<exists>r c. validateInput t = Inr (r, c) \<and> 1 \<le> r \<and> r \<le> 8 \<and> 1 \<le> c \<and> c \<le> 8"
  using assms by (auto simp add: allTokens_def validateInput_two)

lemma setCell_succeeds:
  assumes "length rows = nat gridSize" and "\<forall>row \<in> set rows. length row = nat gridSize"
    and "0 \<le> r" "r < gridSize" "0 \<le> c" "c < gridSize"
  shows "\<exists>rows'. setCell rows r c v = Returns rows'"
proof -
  have "rows ! nat r \<in> set rows" using assms by simp
  then have "length (rows ! nat r) = nat gridSize" using assms(2) by simp
  then show ?thesis using assms by (simp add: setCell_def Let_def)
qed

lemma move_succeeds:
  assumes inv: "boardInv b" and r: "0 \<le> r" "r < gridSize" and c: "0 \<le> c" "c < gridSize"
  shows "\<exists>b'. move r c b = Returns b'"
proof -
  have pinv: "playerInv (mover b) (priorRow b) (priorCol b) (Rows b)"
    using inv by (simp add: boardInv_def mover_def priorRow_def priorCol_def)
  have dims: "length (Rows b) = nat gridSize" "\<forall>row \<in> set (Rows b). length row = nat gridSize"
    using inv by (simp_all add: boardInv_def)
  have "\<exists>rows1. (if 0 < priorRow b
         then setCell (Rows b) (priorRow b) (priorCol b) \<lparr>Status = Block\<rparr>
         else Returns (Rows b)) = Returns rows1"
  proof (cases "0 < priorRow b")
    case True
    then show ?thesis
      using setCell_succeeds[OF dims, of "priorRow b" "priorCol b" "\<lparr>Status = Block\<rparr>"] pinv
      by (simp add: playerInv_def)
  next
    case False
    then show ?thesis by simp
  qed
  then obtain rows1 where
    p: "(if 0 < priorRow b
         then setCell (Rows b) (priorRow b) (priorCol b) \<lparr>Status = Block\<rparr>
         else Returns (Rows b)) = Returns rows1"
    by blast
  have len1: "length rows1 = nat gridSize"
    using dims(1) prior_Returns(1)[OF p] by simp
  have rowlen1: "\<forall>row \<in> set rows1. length row = nat gridSize"
  proof
    fix row assume "row \<in> set rows1"
    then obtain i where i: "i < length rows1" "row = rows1 ! i"
      by (auto simp add: in_set_conv_nth)
    then have "Rows b ! i \<in> set (Rows b)" using len1 dims(1) by simp
    then show "length row = nat gridSize"
      using dims(2) i prior_Returns(2)[OF p, of i] by simp
  qed
  obtain rows2 where d: "setCell rows1 r c \<lparr>Status = mover b\<rparr> = Returns rows2"
    using setCell_succeeds[OF len1 rowlen1 r c] by blast
  show ?thesis
    using p d by (cases "playerOneTurn b")
      (auto simp add: move_def mover_def priorRow_def priorCol_def split: if_splits)
qed

text \<open>A cell that no accepted token names, and that is no player's recorded position,
  stays \<open>Available\<close>; from the fresh board these are the cells not yet visited. An
  accepted position is within rows and columns 1 to 8, or has row 9 or column 9.\<close>

lemma Turn_keeps_unvisited:
  assumes inv: "boardInv b"
    and t: "Turn trim input b = Returns (err, b')"
    and av: "Status (Rows b ! i ! j) = Available"
    and p1: "(playerOneRow b, playerOneCol b) \<noteq> (int i, int j)"
    and p2: "(playerTwoRow b, playerTwoCol b) \<noteq> (int i, int j)"
    and other: "validateInput (trim input) \<noteq> Inr (int i, int j)"
  shows "Status (Rows b' ! i ! j) = Available \<and>
     (playerOneRow b', playerOneCol b') \<noteq> (int i, int j) \<and>
     (playerTwoRow b', playerTwoCol b') \<noteq> (int i, int j)"
  using Turn_cases[OF t]
proof (elim disjE exE conjE)
  fix e assume "b' = b"
  with av p1 p2 show ?thesis by simp
next
  fix r c b0
  assume v: "validateInput (trim input) = Inr (r, c)" and m: "move r c b = Returns b0"
    and b': "b' = b0\<lparr>playerOneTurn := \<not> playerOneTurn b0\<rparr>"
  have rc: "(r, c) \<noteq> (int i, int j)" using other v by simp
  have nn: "0 \<le> r" "0 \<le> c" using move_dims(3,5)[OF m] by auto
  have pinv: "playerInv (mover b) (priorRow b) (priorCol b) (Rows b)"
    using mover_prior_inv[OF inv] .
  have prior: "(priorRow b, priorCol b) \<noteq> (int i, int j)"
    using p1 p2 by (simp add: priorRow_def priorCol_def)
  have "0 \<le> priorRow b" "0 \<le> priorCol b"
    using pinv by (simp_all add: playerInv_def)
  then have np: "\<not> (i = nat (priorRow b) \<and> j = nat (priorCol b))"
    using prior by auto
  have nd: "\<not> (i = nat r \<and> j = nat c)"
    using rc nn by auto
  have cell: "Status (Rows b' ! i ! j) = Available"
    using av np nd by (auto simp add: b' move_nth[OF m])
  have pos: "(playerOneRow b', playerOneCol b') \<noteq> (int i, int j) \<and>
     (playerTwoRow b', playerTwoCol b') \<noteq> (int i, int j)"
    using p1 p2 rc move_positions(2,3)[OF m] by (cases "playerOneTurn b") (auto simp add: b')
  show ?thesis using cell pos by simp
qed

lemma main_loop_keeps_unvisited:
  assumes "boardInv b"
    and "main_loop trim inputs b = Returns (errs, b')"
    and "Status (Rows b ! i ! j) = Available"
    and "(playerOneRow b, playerOneCol b) \<noteq> (int i, int j)"
    and "(playerTwoRow b, playerTwoCol b) \<noteq> (int i, int j)"
    and "\<forall>input \<in> set inputs. validateInput (trim input) \<noteq> Inr (int i, int j)"
  shows "Status (Rows b' ! i ! j) = Available"
  using assms
proof (induction inputs arbitrary: b errs)
  case Nil
  then show ?case by simp
next
  case (Cons input inputs)
  from Cons.prems(2) obtain err b1 errs1 where
    t: "Turn trim input b = Returns (err, b1)" and
    l: "main_loop trim inputs b1 = Returns (errs1, b')"
    by (auto split: outcome.splits)
  have o: "validateInput (trim input) \<noteq> Inr (int i, int j)"
    using Cons.prems(6) by simp
  have k: "Status (Rows b1 ! i ! j) = Available \<and>
     (playerOneRow b1, playerOneCol b1) \<noteq> (int i, int j) \<and>
     (playerTwoRow b1, playerTwoCol b1) \<noteq> (int i, int j)"
    using Turn_keeps_unvisited[OF Cons.prems(1) t Cons.prems(3,4,5) o] .
  show ?case
    using Cons.IH[OF Turn_boardInv[OF Cons.prems(1) t] l] k Cons.prems(6) by simp
qed

lemma never_visited_is_Available:
  assumes "main_loop trim inputs newBoard = Returns (errs, b)"
    and "\<forall>input \<in> set inputs. validateInput (trim input) \<noteq> Inr (int i, int j)"
    and "0 < i" "i < 9" "j < 9"
  shows "Status (Rows b ! i ! j) = Available"
proof -
  have a: "Status (Rows newBoard ! i ! j) = Available"
    using assms(4,5) by (simp add: newBoard_def newRow_def newCell_def gridSize_def)
  have p: "(playerOneRow newBoard, playerOneCol newBoard) \<noteq> (int i, int j)"
      "(playerTwoRow newBoard, playerTwoCol newBoard) \<noteq> (int i, int j)"
    using assms(3) by (simp_all add: newBoard_def)
  show ?thesis
    using main_loop_keeps_unvisited[OF boardInv_newBoard assms(1) a p assms(2)] .
qed

lemma accepted_outside_only_nine:
  assumes "validateInput text = Inr (r, c)"
  shows "(1 \<le> r \<and> r \<le> 8 \<and> 1 \<le> c \<and> c \<le> 8) \<or> r = 9 \<or> c = 9"
  using validateInput_Inr[OF assms] by auto

section \<open>The labels of the rendered table\<close>

lemma of_char_int_nat: "(of_char c :: int) = int (of_char c :: nat)"
  by (simp add: of_char_def)

lemma columnMap_nth:
  assumes "0 \<le> k" and "k \<le> 8"
  shows "columnMap k = Some [char_of (65 + k)]"
proof -
  have "k \<in> {0, 1, 2, 3, 4, 5, 6, 7, 8}" using assms by auto
  then show ?thesis
    unfolding columnMap_def init_eq fst_conv
    by (auto simp add: char_of_def)
qed

lemma Render_nth:
  assumes "i < length (Rows b)" and "j < length (Rows b ! i)"
  shows "Render b ! i ! j =
     (if i = 0 \<and> j = 0 then ''''
      else if i = 0 then (case columnMap (int j - 1) of None \<Rightarrow> '''' | Some s \<Rightarrow> s)
      else if j = 0 then Itoa (int i)
      else Cell_Render (Rows b ! i ! j))"
  using assms by (simp add: Render_def nth_enumerate_eq)

lemma Render_column_label:
  assumes "length (Rows b) = 9" and "\<forall>row \<in> set (Rows b). length row = 9"
    and "1 \<le> j" and "j \<le> 8"
  shows "Render b ! 0 ! j = [char_of (64 + int j)]"
proof -
  have "Rows b ! 0 \<in> set (Rows b)" using assms(1) by simp
  then have "length (Rows b ! 0) = 9" using assms(2) by simp
  then have "Render b ! 0 ! j = (case columnMap (int j - 1) of None \<Rightarrow> '''' | Some s \<Rightarrow> s)"
    using assms by (simp add: Render_nth)
  also have "columnMap (int j - 1) = Some [char_of (65 + (int j - 1))]"
    using assms(3,4) by (intro columnMap_nth) auto
  finally show ?thesis by (simp add: algebra_simps)
qed

lemma Render_row_label:
  assumes "length (Rows b) = 9" and "\<forall>row \<in> set (Rows b). length row = 9"
    and "1 \<le> i" and "i \<le> 8"
  shows "Render b ! i ! 0 = [char_of (48 + i)]"
proof -
  have "Rows b ! i \<in> set (Rows b)" using assms(1,4) by simp
  then have "length (Rows b ! i) = 9" using assms(2) by simp
  then show ?thesis
    using assms by (simp add: Render_nth Itoa_def)
qed

lemma validateInput_labels:
  assumes "1 \<le> i" "i \<le> 8" "1 \<le> j" "j \<le> (8::nat)"
  shows "validateInput [char_of (64 + int j), char_of (48 + i)] = Inr (int i, int j)"
proof -
  have a: "(of_char (char_of (64 + int j)) :: int) = 64 + int j"
    using assms by (simp add: of_char_of)
  have "(of_char (char_of (48 + i)) :: nat) = 48 + i"
    using assms by (simp add: of_char_of)
  then have b: "(of_char (char_of (48 + i)) :: int) = 48 + int i"
    by (simp add: of_char_int_nat)
  show ?thesis
    using assms by (simp add: validateInput_two a b)
qed

lemma letter_range:
  "l \<in> set ''ABCDEFGH'' \<Longrightarrow> 65 \<le> (of_char l :: int) \<and> (of_char l :: int) \<le> 72"
  by auto

lemma digit_range:
  "d \<in> set ''12345678'' \<Longrightarrow> 49 \<le> (of_char d :: int) \<and> (of_char d :: int) \<le> 56"
  by auto

section \<open>The claims\<close>

text \<open>C1: a position not yet visited holds an \<open>Available\<close> cell, so the claim asks
  that it is accepted exactly when it lies within the eight playable rows and columns.
  On the fresh board no position has been visited. The tokens H9 and I8 name positions
  outside the playable rows and columns, and outside the nine rows and columns of
  \<open>Rows\<close> too; \<open>validateInput\<close> accepts both, and the turn panics.\<close>

theorem validateInput_accepts_outside_grid:
  "cells Block (Rows newBoard) = [] \<and>
   cells Player1Occupied (Rows newBoard) = [] \<and>
   cells Player2Occupied (Rows newBoard) = [] \<and>
   validateInput ''H9'' = Inr (9, 8) \<and>
   validateInput ''I8'' = Inr (8, 9) \<and>
   Turn TrimSpace ''H9'' newBoard = Panics \<and>
   Turn TrimSpace ''I8'' newBoard = Panics"
  by code_simp

text \<open>C2, as the code has it: a \<open>Block\<close> cell stays \<open>Block\<close> through every turn of a game
  as long as no accepted token names it. \<open>validateInput\<close> does not read the board, so a
  token that names a \<open>Block\<close> cell is accepted, and \<open>move\<close> marks the cell for the
  player.\<close>

theorem Block_stays_unless_moved_onto:
  assumes "main_loop trim inputs b = Returns (errs, b')"
    and "Status (Rows b ! i ! j) = Block"
    and "\<forall>input \<in> set inputs. validateInput (trim input) \<noteq> Inr (int i, int j)"
  shows "Status (Rows b' ! i ! j) = Block"
  using assms
proof (induction inputs arbitrary: b errs)
  case Nil
  then show ?case by simp
next
  case (Cons input inputs)
  from Cons.prems(1) obtain err b1 errs1 where
    t: "Turn trim input b = Returns (err, b1)" and
    l: "main_loop trim inputs b1 = Returns (errs1, b')"
    by (auto split: outcome.splits)
  have "Status (Rows b1 ! i ! j) = Block"
    using Turn_keeps_Block[OF t Cons.prems(2)] Cons.prems(3) by simp
  then show ?case
    using Cons.IH[OF l] Cons.prems(3) by simp
qed

theorem Block_stays_unless_moved_onto_witness:
  "main_loop TrimSpace [''zz'', ''C1''] board_A1_B1_A2 =
     Returns ([Some NotSerious, None], board_A1_B1_A2_C1) \<and>
   Status (Rows board_A1_B1_A2 ! 1 ! 1) = Block \<and>
   Status (Rows board_A1_B1_A2_C1 ! 1 ! 1) = Block"
proof -
  have h1: "main_loop TrimSpace [''zz'', ''C1''] board_A1_B1_A2 =
     Returns ([Some NotSerious, None], board_A1_B1_A2_C1)"
    by code_simp
  have h2: "Status (Rows board_A1_B1_A2 ! 1 ! 1) = Block"
    by code_simp
  have h3: "\<forall>input \<in> set [''zz'', ''C1'']. validateInput (TrimSpace input) \<noteq> Inr (int 1, int 1)"
    by code_simp
  show ?thesis
    using h1 h2 Block_stays_unless_moved_onto[OF h1 h2 h3] by simp
qed

text \<open>C2 as the claim states it fails: after the tokens A1, B1, A2 the cell A1 is
  \<open>Block\<close>; player two then plays A1, the turn is applied, and the cell carries player
  two's mark. The \<open>Block\<close> cells before are not among those after.\<close>

theorem Block_retaken_counterexample:
  "main_loop TrimSpace [''A1'', ''B1'', ''A2''] newBoard =
     Returns ([None, None, None], board_A1_B1_A2) \<and>
   Status (Rows board_A1_B1_A2 ! 1 ! 1) = Block \<and>
   cells Block (Rows board_A1_B1_A2) = [(1, 1)] \<and>
   Turn TrimSpace ''A1'' board_A1_B1_A2 = Returns (None, board_A1_B1_A2_A1) \<and>
   Status (Rows board_A1_B1_A2_A1 ! 1 ! 1) = Player2Occupied \<and>
   cells Block (Rows board_A1_B1_A2_A1) = [(1, 2)]"
  by code_simp

text \<open>C3, as the code has it. On a board that a game has reached from the fresh board,
  a turn with an accepted token marks the destination for the player whose turn it is,
  and afterwards the destination is the one cell with that mark. When the player has a
  position (row above 0) other than the destination, that cell is \<open>Block\<close> afterwards;
  and it is the one cell newly \<open>Block\<close> when it was not \<open>Block\<close> before.\<close>

theorem move_effect:
  assumes reach: "main_loop trim inputs newBoard = Returns (errs, b)"
    and v: "validateInput (trim input) = Inr (r, c)"
    and t: "Turn trim input b = Returns (err, b')"
  shows "err = None \<and>
     Status (Rows b' ! nat r ! nat c) = mover b \<and>
     cells (mover b) (Rows b') = [(nat r, nat c)] \<and>
     (0 < priorRow b \<and> (r, c) \<noteq> (priorRow b, priorCol b) \<longrightarrow>
        Status (Rows b' ! nat (priorRow b) ! nat (priorCol b)) = Block \<and>
        (Status (Rows b ! nat (priorRow b) ! nat (priorCol b)) \<noteq> Block \<longrightarrow>
           newlyBlocked b b' = [(nat (priorRow b), nat (priorCol b))]))"
proof -
  have inv: "boardInv b"
    using main_loop_boardInv[OF boardInv_newBoard reach] .
  from Turn_cases[OF t] v obtain b0 where
    m: "move r c b = Returns b0" and e: "err = None" and
    b': "b' = b0\<lparr>playerOneTurn := \<not> playerOneTurn b0\<rparr>"
    by auto
  have rows: "Rows b' = Rows b0" by (simp add: b')
  have pinv: "playerInv (mover b) (priorRow b) (priorCol b) (Rows b)"
    using mover_prior_inv[OF inv] .
  have nonneg: "0 \<le> r" "0 \<le> c" using move_dims(3,5)[OF m] by auto
  have dest: "Status (Rows b' ! nat r ! nat c) = mover b"
    by (simp add: rows move_nth[OF m])
  have "set (cells (mover b) (Rows b')) = {(nat r, nat c)}"
    using pinv unfolding rows move_cells[OF m] Let_def playerInv_def
    by (auto simp add: mover_not_Block)
  then have one: "cells (mover b) (Rows b') = [(nat r, nat c)]"
    by (rule cells_singleton)
  have prior: "Status (Rows b' ! nat (priorRow b) ! nat (priorCol b)) = Block"
    if p: "0 < priorRow b" "(r, c) \<noteq> (priorRow b, priorCol b)"
  proof -
    have "0 < priorCol b" using pinv p(1) by (simp add: playerInv_def)
    then have "\<not> (nat (priorRow b) = nat r \<and> nat (priorCol b) = nat c)"
      using p nonneg by auto
    then show ?thesis using p(1) by (auto simp add: rows move_nth[OF m])
  qed
  have new: "newlyBlocked b b' = [(nat (priorRow b), nat (priorCol b))]"
    if p: "0 < priorRow b" "(r, c) \<noteq> (priorRow b, priorCol b)"
      and nb: "Status (Rows b ! nat (priorRow b) ! nat (priorCol b)) \<noteq> Block"
  proof -
    have "0 < priorCol b" using pinv p(1) by (simp add: playerInv_def)
    then have ne: "(nat (priorRow b), nat (priorCol b)) \<noteq> (nat r, nat c)"
      using p nonneg by auto
    have notin: "(nat (priorRow b), nat (priorCol b)) \<notin> set (cells Block (Rows b))"
      using nb by (simp add: set_cells)
    have "set (cells Block (Rows b')) - set (cells Block (Rows b)) =
        {(nat (priorRow b), nat (priorCol b))}"
      using p(1) ne notin unfolding rows move_cells[OF m] Let_def
      by (auto simp add: mover_not_Block[symmetric])
    then show ?thesis by (rule newlyBlocked_singleton)
  qed
  show ?thesis using e dest one prior new by blast
qed

theorem move_effect_witness:
  "main_loop TrimSpace [''A1'', ''B1''] newBoard = Returns ([None, None], board_A1_B1) \<and>
   validateInput (TrimSpace ''A2'') = Inr (2, 1) \<and>
   Turn TrimSpace ''A2'' board_A1_B1 = Returns (None, board_A1_B1_A2) \<and>
   0 < priorRow board_A1_B1 \<and> (2, 1) \<noteq> (priorRow board_A1_B1, priorCol board_A1_B1) \<and>
   Status (Rows board_A1_B1 ! nat (priorRow board_A1_B1) ! nat (priorCol board_A1_B1)) \<noteq> Block \<and>
   Status (Rows board_A1_B1_A2 ! nat 2 ! nat 1) = mover board_A1_B1 \<and>
   cells (mover board_A1_B1) (Rows board_A1_B1_A2) = [(nat 2, nat 1)] \<and>
   Status (Rows board_A1_B1_A2 ! nat (priorRow board_A1_B1) ! nat (priorCol board_A1_B1)) = Block \<and>
   newlyBlocked board_A1_B1 board_A1_B1_A2 = [(nat (priorRow board_A1_B1), nat (priorCol board_A1_B1))]"
proof -
  have h1: "main_loop TrimSpace [''A1'', ''B1''] newBoard = Returns ([None, None], board_A1_B1)"
    by code_simp
  have h2: "validateInput (TrimSpace ''A2'') = Inr (2, 1)"
    by code_simp
  have h3: "Turn TrimSpace ''A2'' board_A1_B1 = Returns (None, board_A1_B1_A2)"
    by code_simp
  have h4: "0 < priorRow board_A1_B1 \<and> ((2::int), (1::int)) \<noteq> (priorRow board_A1_B1, priorCol board_A1_B1)"
    by code_simp
  have h5: "Status (Rows board_A1_B1 ! nat (priorRow board_A1_B1) ! nat (priorCol board_A1_B1)) \<noteq> Block"
    by code_simp
  show ?thesis
    using h1 h2 h3 h4 h5 move_effect[OF h1 h2 h3] by blast
qed

text \<open>C3 as the claim states it fails twice. After A1, B1 player one plays A1 again:
  the token is accepted, the cell they came from carries their mark and is not
  \<open>Block\<close>, and no cell is newly \<open>Block\<close>. After A1, A1, A2 player two, whose recorded
  cell A1 is \<open>Block\<close> already, plays B1: no cell is newly \<open>Block\<close>.\<close>

theorem move_effect_counterexample:
  "main_loop TrimSpace [''A1'', ''B1''] newBoard = Returns ([None, None], board_A1_B1) \<and>
   (priorRow board_A1_B1, priorCol board_A1_B1) = (1, 1) \<and>
   Turn TrimSpace ''A1'' board_A1_B1 = Returns (None, board_A1_B1\<lparr>playerOneTurn := False\<rparr>) \<and>
   Status (Rows (board_A1_B1\<lparr>playerOneTurn := False\<rparr>) ! 1 ! 1) = Player1Occupied \<and>
   newlyBlocked board_A1_B1 (board_A1_B1\<lparr>playerOneTurn := False\<rparr>) = [] \<and>
   main_loop TrimSpace [''A1'', ''A1'', ''A2''] newBoard = Returns ([None, None, None], board_A1_A1_A2) \<and>
   (priorRow board_A1_A1_A2, priorCol board_A1_A1_A2) = (1, 1) \<and>
   Turn TrimSpace ''B1'' board_A1_A1_A2 = Returns (None, board_A1_A1_A2_B1) \<and>
   newlyBlocked board_A1_A1_A2 board_A1_A1_A2_B1 = []"
  by code_simp

text \<open>C4, as the code has it: a turn that returns no error passes the turn to the other
  player, whatever the grid holds; and on a board that a game has reached, every line
  that trims to a token from A1 to H8 is applied next. No board ends the game.\<close>

theorem turn_passes_without_finish:
  assumes reach: "main_loop trim inputs newBoard = Returns (errs, b)"
    and t: "Turn trim input b = Returns (None, b')"
  shows "playerOneTurn b' = (\<not> playerOneTurn b) \<and>
     (\<forall>next. trim next \<in> set allTokens \<longrightarrow> (\<exists>b''. Turn trim next b' = Returns (None, b'')))"
proof -
  have inv: "boardInv b'"
    using Turn_boardInv[OF main_loop_boardInv[OF boardInv_newBoard reach] t] .
  have "\<exists>b''. Turn trim next b' = Returns (None, b'')" if n: "trim next \<in> set allTokens" for "next"
  proof -
    obtain r c where v: "validateInput (trim next) = Inr (r, c)"
      and rc: "1 \<le> r" "r \<le> 8" "1 \<le> c" "c \<le> 8"
      using validateInput_allTokens[OF n] by blast
    obtain b0 where "move r c b' = Returns b0"
      using move_succeeds[OF inv, of r c] rc by (auto simp add: gridSize_def)
    then show ?thesis using v by (simp add: Turn_def)
  qed
  then show ?thesis using Turn_turn[OF t] by simp
qed

theorem turn_passes_without_finish_witness:
  "main_loop TrimSpace allTokens newBoard = Returns (replicate 64 None, fullBoard) \<and>
   Turn TrimSpace ''A1'' fullBoard = Returns (None, fullBoard_A1) \<and>
   TrimSpace ''B2'' \<in> set allTokens \<and>
   playerOneTurn fullBoard_A1 = (\<not> playerOneTurn fullBoard) \<and>
   (\<exists>b''. Turn TrimSpace ''B2'' fullBoard_A1 = Returns (None, b''))"
proof -
  have h1: "main_loop TrimSpace allTokens newBoard = Returns (replicate 64 None, fullBoard)"
    by code_simp
  have h2: "Turn TrimSpace ''A1'' fullBoard = Returns (None, fullBoard_A1)"
    by code_simp
  have h3: "TrimSpace ''B2'' \<in> set allTokens"
    by code_simp
  show ?thesis
    using h1 h2 h3 turn_passes_without_finish[OF h1 h2] by blast
qed

text \<open>C4 as the claim states it fails: the 64 turns of \<open>allTokens\<close> are all applied,
  the last by player two, and leave no empty cell; it is player one's turn, and
  player one's token A1 is applied.\<close>

theorem no_finish_counterexample:
  "main_loop TrimSpace allTokens newBoard = Returns (replicate 64 None, fullBoard) \<and>
   emptyCells (Rows fullBoard) = [] \<and>
   playerOneTurn fullBoard \<and>
   Turn TrimSpace ''A1'' fullBoard = Returns (None, fullBoard_A1) \<and>
   Status (Rows fullBoard_A1 ! 1 ! 1) = Player1Occupied \<and>
   \<not> playerOneTurn fullBoard_A1"
  by code_simp

text \<open>C5: from the fresh board, after any lines of input, it is player one's turn exactly
  when the number of turns that returned no error is even. The list \<open>errs\<close> holds what
  each turn returned, so \<open>count_list errs None\<close> counts the applied moves, and the
  rejected lines between them are the other entries.\<close>

theorem turn_alternation:
  assumes "main_loop trim inputs newBoard = Returns (errs, b)"
  shows "playerOneTurn b = even (count_list errs None)"
  using main_loop_turns[OF assms] by (simp add: newBoard_def)

theorem turn_alternation_witness:
  "main_loop TrimSpace [''zz'', ''A1'', ''A''] newBoard =
     Returns ([Some NotSerious, None, Some NotAValidPosition], board_A1) \<and>
   playerOneTurn board_A1 = even (count_list [Some NotSerious, None, Some NotAValidPosition] None)"
proof -
  have h: "main_loop TrimSpace [''zz'', ''A1'', ''A''] newBoard =
     Returns ([Some NotSerious, None, Some NotAValidPosition], board_A1)"
    by code_simp
  show ?thesis
    using h turn_alternation[where trim = TrimSpace and inputs = "[''zz'', ''A1'', ''A'']"
        and errs = "[Some NotSerious, None, Some NotAValidPosition]" and b = board_A1]
    by simp
qed

text \<open>C6: when \<open>validateInput\<close> rejects the trimmed line, \<open>Turn\<close> returns that error and
  the board it was given: the grid, both positions and the turn are as before, on
  every board.\<close>

theorem Turn_rejected_unchanged:
  assumes "validateInput (trim input) = Inl err"
  shows "Turn trim input b = Returns (Some err, b)"
  using assms by (simp add: Turn_def)

theorem Turn_rejected_unchanged_witness:
  "validateInput (TrimSpace (''Z1'' @ [CHR 0x0A])) = Inl (ColumnDoesNotExist ''Z'') \<and>
   Turn TrimSpace (''Z1'' @ [CHR 0x0A]) board_A1 = Returns (Some (ColumnDoesNotExist ''Z''), board_A1)"
proof -
  have h: "validateInput (TrimSpace (''Z1'' @ [CHR 0x0A])) = Inl (ColumnDoesNotExist ''Z'')"
    by code_simp
  show ?thesis
    using h Turn_rejected_unchanged[where trim = TrimSpace and input = "''Z1'' @ [CHR 0x0A]"
        and err = "ColumnDoesNotExist ''Z''" and b = board_A1]
    by simp
qed

text \<open>C7: the token A9 is not rejected: \<open>validateInput\<close> returns row 9. A row that is
  not a digit, the row 0 and a token of three bytes are rejected, each with a message
  of its own.\<close>

theorem validateInput_row_nine:
  "validateInput ''A9'' = Inr (9, 1) \<and>
   validateInput ''A0'' = Inl (RowDoesNotExist 0) \<and>
   validateInput ''Ax'' = Inl NotSerious \<and>
   validateInput ''A10'' = Inl NotAValidPosition"
  by code_simp

text \<open>C8: on a board of nine rows of nine cells, for every letter from A to H and every
  digit from 1 to 8, \<open>validateInput\<close> returns the row the digit stands for and the
  column of the letter (A is column 1), and the label \<open>Render\<close> puts on top of that
  column followed by the label it puts left of that row is the token. Conversely, for
  rows and columns from 1 to 8, the two labels \<open>Render\<close> prints parse to that row and
  column.\<close>

theorem parse_inverts_labels:
  assumes "length (Rows b) = 9" and "\<forall>row \<in> set (Rows b). length row = 9"
  shows "(\<forall>l \<in> set ''ABCDEFGH''. \<forall>d \<in> set ''12345678''.
            validateInput [l, d] = Inr (of_char d - 48, of_char l - 64) \<and>
            Render b ! 0 ! nat (of_char l - 64) @ Render b ! nat (of_char d - 48) ! 0 = [l, d]) \<and>
         (\<forall>i \<in> {1..8}. \<forall>j \<in> {1..8}.
            validateInput (Render b ! 0 ! j @ Render b ! i ! 0) = Inr (int i, int j))"
proof (intro conjI ballI)
  fix l d assume l: "l \<in> set ''ABCDEFGH''" and d: "d \<in> set ''12345678''"
  show "validateInput [l, d] = Inr (of_char d - 48, of_char l - 64)"
    using letter_range[OF l] digit_range[OF d] by (simp add: validateInput_two)
  define j where "j = nat (of_char l - 64)"
  define i where "i = nat (of_char d - 48)"
  have j: "1 \<le> j" "j \<le> 8" "64 + int j = of_char l"
    using letter_range[OF l] by (auto simp add: j_def)
  have i: "1 \<le> i" "i \<le> 8" "48 + i = of_char d"
    using digit_range[OF d] by (auto simp add: i_def of_char_int_nat)
  have "Render b ! 0 ! j @ Render b ! i ! 0 = [l, d]"
    unfolding Render_column_label[OF assms j(1,2)] Render_row_label[OF assms i(1,2)] j(3) i(3)
    by simp
  then show "Render b ! 0 ! nat (of_char l - 64) @ Render b ! nat (of_char d - 48) ! 0 = [l, d]"
    by (simp add: i_def j_def)
next
  fix i j :: nat assume "i \<in> {1..8}" and "j \<in> {1..8}"
  then have r: "1 \<le> i" "i \<le> 8" "1 \<le> j" "j \<le> 8" by auto
  show "validateInput (Render b ! 0 ! j @ Render b ! i ! 0) = Inr (int i, int j)"
    unfolding Render_column_label[OF assms r(3,4)] Render_row_label[OF assms r(1,2)]
    using validateInput_labels[OF r] by simp
qed

theorem parse_inverts_labels_witness:
  "length (Rows board_A1) = 9 \<and>
   validateInput ''C5'' = Inr (of_char CHR ''5'' - 48, of_char CHR ''C'' - 64) \<and>
   Render board_A1 ! 0 ! nat (of_char CHR ''C'' - 64) @ Render board_A1 ! nat (of_char CHR ''5'' - 48) ! 0 = ''C5'' \<and>
   validateInput (Render board_A1 ! 0 ! 3 @ Render board_A1 ! 5 ! 0) = Inr (int 5, int 3)"
proof -
  have h1: "length (Rows board_A1) = 9"
    by code_simp
  have h2: "\<forall>row \<in> set (Rows board_A1). length row = 9"
    by code_simp
  have m: "CHR ''C'' \<in> set ''ABCDEFGH''" "CHR ''5'' \<in> set ''12345678''"
      "(5::nat) \<in> {1..8}" "(3::nat) \<in> {1..8}"
    by simp_all
  show ?thesis
    using h1 m parse_inverts_labels[OF h1 h2] by blast
qed

text \<open>C9: on every board a game reaches from the fresh board, \<open>Rows\<close> is nine rows of
  nine cells, and every cell of row 0 and of column 0 is \<open>Available\<close>.\<close>

theorem header_cells_stay_Available:
  assumes "main_loop trim inputs newBoard = Returns (errs, b)"
  shows "length (Rows b) = 9 \<and> (\<forall>row \<in> set (Rows b). length row = 9) \<and>
     (\<forall>k < 9. Status (Rows b ! 0 ! k) = Available \<and> Status (Rows b ! k ! 0) = Available)"
  using main_loop_boardInv[OF boardInv_newBoard assms]
  by (simp add: boardInv_def headerFree_def gridSize_def)

theorem header_cells_stay_Available_witness:
  "main_loop TrimSpace [''A1'', ''B1'', ''A2'', ''A1''] newBoard =
     Returns ([None, None, None, None], board_A1_B1_A2_A1) \<and>
   length (Rows board_A1_B1_A2_A1) = 9 \<and>
   Status (Rows board_A1_B1_A2_A1 ! 0 ! 1) = Available \<and>
   Status (Rows board_A1_B1_A2_A1 ! 1 ! 0) = Available"
proof -
  have h: "main_loop TrimSpace [''A1'', ''B1'', ''A2'', ''A1''] newBoard =
     Returns ([None, None, None, None], board_A1_B1_A2_A1)"
    by code_simp
  show ?thesis
    using h header_cells_stay_Available[OF h] by simp
qed

text \<open>C10: \<open>Rows\<close> of the fresh board has nine rows of nine cells, indexed from 0 to 8.
  \<open>validateInput\<close> accepts A9 with row 9 and I1 with column 9, and \<open>move\<close> panics on
  either, as does the turn.\<close>

theorem accepted_token_out_of_range:
  "length (Rows newBoard) = 9 \<and>
   length (Rows newBoard ! 1) = 9 \<and>
   validateInput ''A9'' = Inr (9, 1) \<and>
   move 9 1 newBoard = Panics \<and>
   Turn TrimSpace (''A9'' @ [CHR 0x0A]) newBoard = Panics \<and>
   validateInput ''I1'' = Inr (1, 9) \<and>
   move 1 9 newBoard = Panics \<and>
   Turn TrimSpace (''I1'' @ [CHR 0x0A]) newBoard = Panics"
  by code_simp

end
